theory Spec2Isabelle
  imports Main "HOL-Library.Sublist"
begin

section \<open>Go string primitives used by the Slack bot\<close>

text \<open>
  A Go string is a sequence of bytes and \<open>len\<close> counts bytes, so a Go string is a
  \<^typ>\<open>string\<close> (a list of 8-bit characters) here.  \<open>strings.ToLower\<close> is modelled on
  ASCII text, where Go maps the bytes \<open>A\<close> .. \<open>Z\<close> to \<open>a\<close> .. \<open>z\<close> and keeps every other
  byte; Unicode case mapping of multi-byte runes is outside the model.
\<close>

definition isUpperByte :: "char \<Rightarrow> bool" where
  "isUpperByte c \<longleftrightarrow> (65::nat) \<le> of_char c \<and> of_char c \<le> (90::nat)"

definition lowerByte :: "char \<Rightarrow> char" where
  "lowerByte c = (if isUpperByte c then char_of (of_char c + (32::nat)) else c)"

definition ToLower :: "string \<Rightarrow> string" where
  "ToLower s = map lowerByte s"

text \<open>\<open>strings.HasPrefix(s, prefix)\<close>: \<open>len(s) >= len(prefix) && s[:len(prefix)] == prefix\<close>.\<close>

definition HasPrefix :: "string \<Rightarrow> string \<Rightarrow> bool" where
  "HasPrefix s p \<longleftrightarrow> length p \<le> length s \<and> take (length p) s = p"

text \<open>\<open>strings.TrimPrefix(s, prefix)\<close>: \<open>s\<close> without the leading \<open>prefix\<close>, or \<open>s\<close> itself.\<close>

definition TrimPrefix :: "string \<Rightarrow> string \<Rightarrow> string" where
  "TrimPrefix s p = (if HasPrefix s p then drop (length p) s else s)"

text \<open>
  \<open>strings.Trim(s, cutset)\<close> for an ASCII cutset: all leading and all trailing bytes
  that occur in \<open>cutset\<close> are removed.
\<close>

definition TrimLeft :: "string \<Rightarrow> string \<Rightarrow> string" where
  "TrimLeft s cutset = dropWhile (\<lambda>c. c \<in> set cutset) s"

definition TrimRight :: "string \<Rightarrow> string \<Rightarrow> string" where
  "TrimRight s cutset = rev (dropWhile (\<lambda>c. c \<in> set cutset) (rev s))"

definition Trim :: "string \<Rightarrow> string \<Rightarrow> string" where
  "Trim s cutset = TrimLeft (TrimRight s cutset) cutset"

text \<open>
  \<open>strings.Replace(s, old, new, 1)\<close>: the leftmost occurrence of \<open>old\<close> in \<open>s\<close> is
  replaced by \<open>new\<close>; without an occurrence \<open>s\<close> is returned.  An empty \<open>old\<close> matches at
  the beginning of the string.
\<close>

fun ReplaceFirst :: "string \<Rightarrow> string \<Rightarrow> string \<Rightarrow> string" where
  "ReplaceFirst [] old new = (if old = [] then new else [])"
| "ReplaceFirst (c # cs) old new =
     (if HasPrefix (c # cs) old then new @ drop (length old) (c # cs)
      else c # ReplaceFirst cs old new)"

text \<open>
  \<open>strings.Index(s, substr)\<close>: the position of the leftmost occurrence of \<open>substr\<close> in
  \<open>s\<close>; \<open>None\<close> stands for Go's \<open>-1\<close>.
\<close>

fun Index :: "string \<Rightarrow> string \<Rightarrow> nat option" where
  "Index [] substr = (if substr = [] then Some 0 else None)"
| "Index (c # cs) substr =
     (if HasPrefix (c # cs) substr then Some 0 else map_option Suc (Index cs substr))"

section \<open>Data model\<close>

type_synonym error = string

text \<open>
  The fields of \<open>Bot\<close> that the message path reads or writes.  The field \<open>id\<close> of the
  source is \<open>id_b\<close> here, and the fields of the other structures carry a short prefix, since
  several of them share the names \<open>Name\<close>, \<open>User\<close> and \<open>Channel\<close>.
\<close>

record Bot =
  id_b :: string
  name :: string
  users :: "string \<rightharpoonup> string"
  msgPrefix :: string
  approvalsChannel :: string

text \<open>\<open>slack.MessageEvent\<close>, the fields \<open>handleMessage\<close> reads.\<close>

record MessageEvent =
  evText :: string
  evUser :: string
  evChannel :: string
  evBotID :: string
  evSubType :: string

text \<open>\<open>slack.User\<close>, the fields \<open>Start\<close> reads.\<close>

record User =
  userID :: string
  userName :: string
  userIsBot :: bool

text \<open>\<open>slack.Channel\<close>, the field \<open>isApprovalsChannel\<close> reads.\<close>

record Channel =
  chName :: string

text \<open>
  Modelled from the spec: the type \<open>bot.ApprovalResponse\<close> is declared in package \<open>bot\<close>;
  the spec's \<open>ApprovalVote\<close> has a voter, a decision and a subject.  The bot only passes
  the value on.
\<close>

datatype Decision = Approve | Reject | Unknown

record ApprovalResponse =
  voterID :: string
  decision :: Decision
  subject :: string

text \<open>\<open>bot.BotMessage\<close> as \<open>handleMessage\<close> builds it.\<close>

record BotMessage =
  bmMessage :: string
  bmUser :: string
  bmChannel :: string
  bmName :: string

text \<open>\<open>slack.FileUploadParameters\<close> as \<open>Respond\<close> builds it.\<close>

record FileUploadParameters =
  Filename :: string
  Content :: string
  Filetype :: string
  Channels :: "string list"

text \<open>
  What the bot sends to Slack: \<open>SendMessage text channel\<close> is
  \<open>slackRTM.SendMessage(slackRTM.NewOutgoingMessage(text, channel))\<close> and \<open>UploadFile f\<close> is
  \<open>slackClient.UploadFile(f)\<close>.
\<close>

datatype Reply = SendMessage string string | UploadFile FileUploadParameters

text \<open>
  The world outside the bot: the values sent so far on the two Go channels, oldest first
  (a \<open>*bot.ApprovalResponse\<close> may be \<open>nil\<close>, hence the option), and the calls made to
  Slack.  Log output is not modelled.
\<close>

record World =
  approvalsRespCh :: "ApprovalResponse option list"
  botMessagesChannel :: "BotMessage list"
  sent :: "Reply list"

text \<open>
  The Slack client calls whose results the bot branches on.  The second argument of
  \<open>GetConversationInfo\<close> is the flag the source passes as \<open>true\<close>.
\<close>

record SlackAPI =
  GetUsers :: "error + User list"
  GetChannelInfo :: "string \<Rightarrow> error + Channel"
  GetConversationInfo :: "string \<Rightarrow> bool \<Rightarrow> error + Channel"

text \<open>
  \<open>bot.IsApproval(eventUser, eventText)\<close> lives in package \<open>bot\<close>; it is a parameter
  of \<open>handleMessage\<close> and returns the vote and the flag \<open>ok\<close>.
\<close>

type_synonym VoteParser = "string \<Rightarrow> string \<Rightarrow> ApprovalResponse option \<times> bool"

section \<open>Start: resolving the bot's identity\<close>

text \<open>The loop over the users: every user named like the bot and flagged as a bot sets \<open>b.id\<close>.\<close>

fun scanUsers :: "Bot \<Rightarrow> User list \<Rightarrow> Bot" where
  "scanUsers b [] = b"
| "scanUsers b (user # rest) =
     (if userName user = name b
      then (if userIsBot user then scanUsers (b\<lparr>id_b := userID user\<rparr>) rest
            else scanUsers b rest)
      else scanUsers b rest)"

definition notFoundError :: "Bot \<Rightarrow> error" where
  "notFoundError b =
     ''could not find bot in the list of names, check if the bot is called '' @ [CHR 0x22]
       @ name b @ [CHR 0x22] @ '' ''"

text \<open>
  \<open>Start\<close> returns \<open>Inl err\<close> where the source returns the error, before
  \<open>go b.startInternal()\<close>; \<open>Inr b'\<close> is the bot with which the event loop is started.
\<close>

definition Start :: "Bot \<Rightarrow> SlackAPI \<Rightarrow> error + Bot" where
  "Start b api =
     (case GetUsers api of
        Inl err \<Rightarrow> Inl err
      | Inr us \<Rightarrow>
          (let b1 = scanUsers (b\<lparr>users := Map.empty\<rparr>) us in
           if id_b b1 = [] then Inl (notFoundError b1)
           else Inr (b1\<lparr>msgPrefix := ToLower (''<@'' @ id_b b1 @ ''>'')\<rparr>)))"

section \<open>Channel classification\<close>

definition isApprovalsChannel :: "Bot \<Rightarrow> SlackAPI \<Rightarrow> MessageEvent \<Rightarrow> bool" where
  "isApprovalsChannel b api event =
     (case GetChannelInfo api (evChannel event) of
        Inl err \<Rightarrow>
          (case GetConversationInfo api (evChannel event) True of
             Inl err' \<Rightarrow> False
           | Inr conv \<Rightarrow> (if chName conv = approvalsChannel b then True else False))
      | Inr channel \<Rightarrow> (if chName channel = approvalsChannel b then True else False))"

section \<open>Replies\<close>

definition formatAsSnippet :: "string \<Rightarrow> string" where
  "formatAsSnippet response = [CHR 0x60, CHR 0x60, CHR 0x60] @ response @ [CHR 0x60, CHR 0x60, CHR 0x60]"

definition Respond :: "string \<Rightarrow> string \<Rightarrow> World \<Rightarrow> World" where
  "Respond text channel w =
     (if length text < 3000
      then w\<lparr>sent := sent w @ [SendMessage (formatAsSnippet text) channel]\<rparr>
      else w\<lparr>sent := sent w @
             [UploadFile \<lparr>Filename = ''keel response'', Content = text,
                          Filetype = ''text'', Channels = [channel]\<rparr>]\<rparr>)"

section \<open>The event router\<close>

text \<open>The loop of \<open>isBotMessage\<close> over its list of prefixes.\<close>

fun anyPrefix :: "string \<Rightarrow> string list \<Rightarrow> bool" where
  "anyPrefix eventText [] = False"
| "anyPrefix eventText (p # ps) = (if HasPrefix eventText p then True else anyPrefix eventText ps)"

definition isBotMessage :: "Bot \<Rightarrow> MessageEvent \<Rightarrow> string \<Rightarrow> bool" where
  "isBotMessage b event eventText =
     (if anyPrefix eventText [msgPrefix b, name b] then True
      else HasPrefix (evChannel event) ''D'')"

definition trimBot :: "Bot \<Rightarrow> string \<Rightarrow> string" where
  "trimBot b msg =
     (let msg1 = ReplaceFirst msg (ToLower (msgPrefix b)) [];
          msg2 = TrimPrefix msg1 (name b)
      in Trim msg2 [CHR '' '', CHR '':'', CHR 0x0A])"

text \<open>\<open>fmt.Sprintf("please use approvals channel '%s'", b.approvalsChannel)\<close>.\<close>

definition approvalsNotice :: "Bot \<Rightarrow> string" where
  "approvalsNotice b = ''please use approvals channel '' @ [CHR 0x27] @ approvalsChannel b @ [CHR 0x27]"

text \<open>
  The first statement of \<open>handleMessage\<close> after the noise filter:
  \<open>strings.Trim(strings.ToLower(event.Text), " \n\r")\<close>.
\<close>

definition normalizeText :: "string \<Rightarrow> string" where
  "normalizeText text = Trim (ToLower text) [CHR '' '', CHR 0x0A, CHR 0x0D]"

definition handleMessage :: "Bot \<Rightarrow> SlackAPI \<Rightarrow> VoteParser \<Rightarrow> MessageEvent \<Rightarrow> World \<Rightarrow> World" where
  "handleMessage b api IsApproval event w =
     (if evBotID event \<noteq> [] \<or> evUser event = [] \<or> evSubType event = ''bot_message'' then w
      else
        let eventText = normalizeText (evText event) in
        if \<not> isBotMessage b event eventText then w
        else
          let eventText' = trimBot b eventText;
              (approval, ok) = IsApproval (evUser event) eventText'
          in if ok \<and> isApprovalsChannel b api event
             then w\<lparr>approvalsRespCh := approvalsRespCh w @ [approval]\<rparr>
             else if ok
             then Respond (approvalsNotice b) (evChannel event) w
             else w\<lparr>botMessagesChannel := botMessagesChannel w @
                    [\<lparr>bmMessage = eventText', bmUser = evUser event,
                      bmChannel = evChannel event, bmName = ''slack''\<rparr>]\<rparr>)"

section \<open>Reading a reply\<close>

text \<open>The text and the target channels of a call to Slack, whichever of the two it is.\<close>

fun replyText :: "Reply \<Rightarrow> string" where
  "replyText (SendMessage text channel) = text"
| "replyText (UploadFile f) = Content f"

fun replyChannels :: "Reply \<Rightarrow> string list" where
  "replyChannels (SendMessage text channel) = [channel]"
| "replyChannels (UploadFile f) = Channels f"

section \<open>The spec's reading of two steps\<close>

text \<open>
  The strip-addressing step as the spec words it (section 4.3, step 4): the mention prefix is
  removed from the start of the text if the text starts with it, compared case-insensitively;
  else the plain name is removed from the start if the text starts with it; then spaces,
  colons and newlines are trimmed from both ends.
\<close>

definition trimBot_spec :: "Bot \<Rightarrow> string \<Rightarrow> string" where
  "trimBot_spec b msg =
     Trim (if HasPrefix (ToLower msg) (ToLower (msgPrefix b)) then drop (length (msgPrefix b)) msg
           else if HasPrefix msg (name b) then drop (length (name b)) msg
           else msg) [CHR '' '', CHR '':'', CHR 0x0A]"

text \<open>
  Identity resolution as the spec words it (section 4.1): the id of the first user of the
  directory whose name equals the configured name and who is flagged as a bot.
\<close>

definition firstBotAccount_spec :: "string \<Rightarrow> User list \<Rightarrow> string option" where
  "firstBotAccount_spec configuredName directory =
     map_option userID (find (\<lambda>u. userName u = configuredName \<and> userIsBot u) directory)"

section \<open>A small workspace for concrete instances\<close>

text \<open>
  The bot of the spec's scenarios (name \<open>keel\<close>, id \<open>U123\<close>, approvals channel
  \<open>general\<close>), a Slack workspace with the public channels \<open>C1\<close> (general) and \<open>C2\<close>
  (random), the private conversations \<open>G1\<close> (general) and \<open>D7\<close> (a direct message), and a
  stand-in vote parser that accepts texts starting with \<open>approve\<close>.
\<close>

definition keelBot :: Bot where
  "keelBot = \<lparr>id_b = ''U123'', name = ''keel'', users = Map.empty,
              msgPrefix = ''<@u123>'', approvalsChannel = ''general''\<rparr>"

definition demoAPI :: SlackAPI where
  "demoAPI = \<lparr>
     GetUsers = Inr [\<lparr>userID = ''U123'', userName = ''keel'', userIsBot = True\<rparr>],
     GetChannelInfo = (\<lambda>c. if c = ''C1'' then Inr \<lparr>chName = ''general''\<rparr>
                           else if c = ''C2'' then Inr \<lparr>chName = ''random''\<rparr>
                           else Inl ''channel_not_found''),
     GetConversationInfo = (\<lambda>c f. if c = ''G1'' then Inr \<lparr>chName = ''general''\<rparr>
                                  else if c = ''D7'' then Inr \<lparr>chName = []\<rparr>
                                  else Inl ''channel_not_found'')\<rparr>"

definition demoParser :: VoteParser where
  "demoParser user text =
     (if HasPrefix text ''approve ''
      then (Some \<lparr>voterID = user, decision = Approve, subject = drop 8 text\<rparr>, True)
      else (None, False))"

definition humanEvent :: "string \<Rightarrow> string \<Rightarrow> MessageEvent" where
  "humanEvent text channel =
     \<lparr>evText = text, evUser = ''U999'', evChannel = channel, evBotID = [], evSubType = []\<rparr>"

definition emptyWorld :: World where
  "emptyWorld = \<lparr>approvalsRespCh = [], botMessagesChannel = [], sent = []\<rparr>"

text \<open>
  The bot as \<open>Configure\<close> leaves it with the default name and approvals channel, before
  \<open>Start\<close>; and a user directory in which two bot accounts are called \<open>keel\<close>.
\<close>

definition freshBot :: Bot where
  "freshBot = \<lparr>id_b = [], name = ''keel'', users = Map.empty, msgPrefix = [],
               approvalsChannel = ''general''\<rparr>"

definition twoKeels :: "User list" where
  "twoKeels = [\<lparr>userID = ''U1'', userName = ''keel'', userIsBot = True\<rparr>,
               \<lparr>userID = ''U7'', userName = ''Keel'', userIsBot = True\<rparr>,
               \<lparr>userID = ''U2'', userName = ''keel'', userIsBot = True\<rparr>,
               \<lparr>userID = ''U3'', userName = ''keel'', userIsBot = False\<rparr>]"

lemmas evals = keelBot_def demoAPI_def demoParser_def humanEvent_def emptyWorld_def
  handleMessage_def normalizeText_def isBotMessage_def trimBot_def HasPrefix_def TrimPrefix_def
  Trim_def TrimLeft_def TrimRight_def ToLower_def lowerByte_def isUpperByte_def char_of_def bit_0
  isApprovalsChannel_def Respond_def approvalsNotice_def formatAsSnippet_def Let_def

section \<open>The noise filter\<close>

text \<open>
  C3: an event with a non-empty bot id, an empty sender or the subtype \<open>bot_message\<close> is
  dropped: \<open>handleMessage\<close> leaves both queues and the replies as they were.
\<close>

theorem noise_dropped:
  "evBotID event \<noteq> [] \<or> evUser event = [] \<or> evSubType event = ''bot_message''
   \<Longrightarrow> handleMessage b api IsApproval event w = w"
  by (simp add: handleMessage_def)

text \<open>One event for each of the three reasons; each would otherwise be a vote in \<open>general\<close>.\<close>

theorem noise_dropped_witness:
  "handleMessage keelBot demoAPI demoParser
     \<lparr>evText = ''keel approve payment-1'', evUser = ''U999'', evChannel = ''C1'',
       evBotID = ''B42'', evSubType = []\<rparr> emptyWorld = emptyWorld
   \<and> handleMessage keelBot demoAPI demoParser
     \<lparr>evText = ''keel approve payment-1'', evUser = [], evChannel = ''C1'',
       evBotID = [], evSubType = []\<rparr> emptyWorld = emptyWorld
   \<and> handleMessage keelBot demoAPI demoParser
     \<lparr>evText = ''keel approve payment-1'', evUser = ''U999'', evChannel = ''C1'',
       evBotID = [], evSubType = ''bot_message''\<rparr> emptyWorld = emptyWorld"
  using noise_dropped [of "\<lparr>evText = ''keel approve payment-1'', evUser = ''U999'',
       evChannel = ''C1'', evBotID = ''B42'', evSubType = []\<rparr>" keelBot demoAPI demoParser emptyWorld]
    noise_dropped [of "\<lparr>evText = ''keel approve payment-1'', evUser = [],
       evChannel = ''C1'', evBotID = [], evSubType = []\<rparr>" keelBot demoAPI demoParser emptyWorld]
    noise_dropped [of "\<lparr>evText = ''keel approve payment-1'', evUser = ''U999'',
       evChannel = ''C1'', evBotID = [], evSubType = ''bot_message''\<rparr>" keelBot demoAPI demoParser emptyWorld]
  by simp

text \<open>
  C4: an event that passes the noise filter, whose normalized text starts neither with the
  mention prefix nor with the bot's name, and whose channel id does not start with \<open>D\<close>,
  is dropped without any output.
\<close>

theorem not_addressed_dropped:
  assumes "evBotID event = []" and "evUser event \<noteq> []" and "evSubType event \<noteq> ''bot_message''"
    and "\<not> HasPrefix (normalizeText (evText event)) (msgPrefix b)"
    and "\<not> HasPrefix (normalizeText (evText event)) (name b)"
    and "\<not> HasPrefix (evChannel event) ''D''"
  shows "handleMessage b api IsApproval event w = w"
  using assms by (simp add: handleMessage_def isBotMessage_def)

text \<open>
  A message in the public channel \<open>C1\<close> that names the bot in the middle only.
\<close>

theorem not_addressed_dropped_witness:
  "handleMessage keelBot demoAPI demoParser (humanEvent ''hello keel, approve payment-1'' ''C1'') emptyWorld
     = emptyWorld"
proof -
  let ?e = "humanEvent ''hello keel, approve payment-1'' ''C1''"
  have n: "normalizeText (evText ?e) = ''hello keel, approve payment-1''" by (simp add: evals)
  have a: "\<not> HasPrefix (normalizeText (evText ?e)) (msgPrefix keelBot)"
    and b: "\<not> HasPrefix (normalizeText (evText ?e)) (name keelBot)"
    and c: "\<not> HasPrefix (evChannel ?e) ''D''"
    unfolding n by (simp_all add: keelBot_def HasPrefix_def humanEvent_def)
  show ?thesis
    using not_addressed_dropped [of ?e keelBot demoAPI demoParser emptyWorld, OF _ _ _ a b c]
    by (simp add: humanEvent_def)
qed

section \<open>The responder\<close>

text \<open>
  C9: \<open>Respond\<close> makes exactly one call to Slack: a text shorter than 3000 bytes is
  sent as a message wrapped in three backquotes on each side, any other text is uploaded
  as the file \<open>keel response\<close> of type \<open>text\<close> for the given channel; the queues are
  not touched.
\<close>

theorem Respond_one_path:
  "(length text < 3000 \<longrightarrow>
      sent (Respond text channel w) = sent w @ [SendMessage (formatAsSnippet text) channel]
      \<and> formatAsSnippet text = replicate 3 (CHR 0x60) @ text @ replicate 3 (CHR 0x60))
   \<and> (3000 \<le> length text \<longrightarrow>
      sent (Respond text channel w) = sent w @
        [UploadFile \<lparr>Filename = ''keel response'', Content = text,
                     Filetype = ''text'', Channels = [channel]\<rparr>])
   \<and> length (sent (Respond text channel w)) = Suc (length (sent w))
   \<and> approvalsRespCh (Respond text channel w) = approvalsRespCh w
   \<and> botMessagesChannel (Respond text channel w) = botMessagesChannel w"
  by (simp add: Respond_def formatAsSnippet_def numeral_3_eq_3)

text \<open>
  The two sides of the threshold: 2999 bytes are sent inline, 3000 bytes are uploaded.
\<close>

theorem Respond_one_path_witness:
  "sent (Respond (replicate 2999 (CHR ''x'')) ''C2'' emptyWorld)
     = [SendMessage (replicate 3 (CHR 0x60) @ replicate 2999 (CHR ''x'') @ replicate 3 (CHR 0x60)) ''C2'']
   \<and> sent (Respond (replicate 3000 (CHR ''x'')) ''C2'' emptyWorld)
     = [UploadFile \<lparr>Filename = ''keel response'', Content = replicate 3000 (CHR ''x''),
                     Filetype = ''text'', Channels = [''C2'']\<rparr>]"
  using Respond_one_path [of "replicate 2999 (CHR ''x'')" "''C2''" emptyWorld]
    Respond_one_path [of "replicate 3000 (CHR ''x'')" "''C2''" emptyWorld]
  by (simp add: emptyWorld_def)

lemma sublist_snippet: "sublist text (formatAsSnippet text)"
  unfolding formatAsSnippet_def sublist_def by blast

lemma Respond_sent:
  "\<exists>r. sent (Respond text channel w) = sent w @ [r] \<and> replyChannels r = [channel]
        \<and> sublist text (replyText r)"
  by (simp add: Respond_def sublist_snippet)

lemma Respond_queues:
  "approvalsRespCh (Respond text channel w) = approvalsRespCh w"
  "botMessagesChannel (Respond text channel w) = botMessagesChannel w"
  by (simp_all add: Respond_def)

section \<open>The channel classifier\<close>

text \<open>
  C7: \<open>isApprovalsChannel\<close> compares the name of the public channel when the first
  lookup succeeds; when it fails, it compares the name that \<open>GetConversationInfo\<close>, called
  with the flag \<open>true\<close>, returns; when both lookups fail it answers false.
\<close>

theorem isApprovalsChannel_lookups:
  "(GetChannelInfo api (evChannel event) = Inr channel \<longrightarrow>
      isApprovalsChannel b api event = (chName channel = approvalsChannel b))
   \<and> (GetChannelInfo api (evChannel event) = Inl err
        \<and> GetConversationInfo api (evChannel event) True = Inr conv \<longrightarrow>
      isApprovalsChannel b api event = (chName conv = approvalsChannel b))
   \<and> (GetChannelInfo api (evChannel event) = Inl err
        \<and> GetConversationInfo api (evChannel event) True = Inl err' \<longrightarrow>
      \<not> isApprovalsChannel b api event)"
  by (simp add: isApprovalsChannel_def)

text \<open>
  The five kinds of channel of the demo workspace: public and approvals, public and other,
  private and approvals, private and other, unknown.
\<close>

theorem isApprovalsChannel_lookups_witness:
  "isApprovalsChannel keelBot demoAPI (humanEvent ''approve x'' ''C1'')
   \<and> \<not> isApprovalsChannel keelBot demoAPI (humanEvent ''approve x'' ''C2'')
   \<and> isApprovalsChannel keelBot demoAPI (humanEvent ''approve x'' ''G1'')
   \<and> \<not> isApprovalsChannel keelBot demoAPI (humanEvent ''approve x'' ''D7'')
   \<and> \<not> isApprovalsChannel keelBot demoAPI (humanEvent ''approve x'' ''C404'')"
  using isApprovalsChannel_lookups [of demoAPI "humanEvent ''approve x'' ''C1''" "\<lparr>chName = ''general''\<rparr>" keelBot]
    isApprovalsChannel_lookups [of demoAPI "humanEvent ''approve x'' ''C2''" "\<lparr>chName = ''random''\<rparr>" keelBot]
    isApprovalsChannel_lookups [of demoAPI "humanEvent ''approve x'' ''G1''" _ keelBot "''channel_not_found''" "\<lparr>chName = ''general''\<rparr>"]
    isApprovalsChannel_lookups [of demoAPI "humanEvent ''approve x'' ''D7''" _ keelBot "''channel_not_found''" "\<lparr>chName = []\<rparr>"]
    isApprovalsChannel_lookups [of demoAPI "humanEvent ''approve x'' ''C404''" _ keelBot "''channel_not_found''" _ "''channel_not_found''"]
  by (simp add: demoAPI_def humanEvent_def keelBot_def)

section \<open>Routing votes and commands\<close>

text \<open>
  C1: for an event that passes both filters and whose stripped text the parser takes for a
  vote: in the approvals channel the vote is the one value enqueued on the approvals queue
  and nothing else changes; elsewhere both queues stay as they are and exactly one reply goes
  to the event's channel, whose text contains the notice with the approvals channel's name.
\<close>

theorem vote_routing:
  assumes "evBotID event = []" and "evUser event \<noteq> []" and "evSubType event \<noteq> ''bot_message''"
    and "isBotMessage b event (normalizeText (evText event))"
    and "IsApproval (evUser event) (trimBot b (normalizeText (evText event))) = (approval, True)"
  shows "if isApprovalsChannel b api event
         then handleMessage b api IsApproval event w
                = w\<lparr>approvalsRespCh := approvalsRespCh w @ [approval]\<rparr>
         else approvalsRespCh (handleMessage b api IsApproval event w) = approvalsRespCh w
              \<and> botMessagesChannel (handleMessage b api IsApproval event w) = botMessagesChannel w
              \<and> (\<exists>r. sent (handleMessage b api IsApproval event w) = sent w @ [r]
                     \<and> replyChannels r = [evChannel event]
                     \<and> sublist (''please use approvals channel '' @ [CHR 0x27]
                                  @ approvalsChannel b @ [CHR 0x27]) (replyText r))"
  using assms Respond_sent [of "approvalsNotice b" "evChannel event" w]
  by (simp add: handleMessage_def Respond_queues approvalsNotice_def)

text \<open>
  The spec's two scenarios: the vote \<open><@U123> approve payment-1\<close> in \<open>general\<close> and in
  \<open>random\<close>.
\<close>

theorem vote_routing_witness:
  "handleMessage keelBot demoAPI demoParser (humanEvent ''<@U123> approve payment-1'' ''C1'') emptyWorld
     = emptyWorld\<lparr>approvalsRespCh :=
         [Some \<lparr>voterID = ''U999'', decision = Approve, subject = ''payment-1''\<rparr>]\<rparr>
   \<and> approvalsRespCh (handleMessage keelBot demoAPI demoParser
        (humanEvent ''<@U123> approve payment-1'' ''C2'') emptyWorld) = []
   \<and> botMessagesChannel (handleMessage keelBot demoAPI demoParser
        (humanEvent ''<@U123> approve payment-1'' ''C2'') emptyWorld) = []
   \<and> (\<exists>r. sent (handleMessage keelBot demoAPI demoParser
              (humanEvent ''<@U123> approve payment-1'' ''C2'') emptyWorld) = [r]
          \<and> replyChannels r = [''C2'']
          \<and> sublist (''please use approvals channel '' @ [CHR 0x27] @ ''general'' @ [CHR 0x27])
               (replyText r))"
proof -
  let ?a = "Some \<lparr>voterID = ''U999'', decision = Approve, subject = ''payment-1''\<rparr>"
  let ?e1 = "humanEvent ''<@U123> approve payment-1'' ''C1''"
  let ?e2 = "humanEvent ''<@U123> approve payment-1'' ''C2''"
  have n1: "normalizeText (evText ?e1) = ''<@u123> approve payment-1''"
    and n2: "normalizeText (evText ?e2) = ''<@u123> approve payment-1''"
    by (simp_all add: evals)
  have t: "trimBot keelBot ''<@u123> approve payment-1'' = ''approve payment-1''"
    by (simp add: evals)
  have p: "demoParser ''U999'' ''approve payment-1'' = (?a, True)"
    by (simp add: evals)
  have a1: "isBotMessage keelBot ?e1 (normalizeText (evText ?e1))"
    and a2: "isBotMessage keelBot ?e2 (normalizeText (evText ?e2))"
    unfolding n1 n2 by (simp_all add: evals)
  have c1: "isApprovalsChannel keelBot demoAPI ?e1"
    and c2: "\<not> isApprovalsChannel keelBot demoAPI ?e2"
    by (simp_all add: evals)
  have u: "evUser ?e1 = ''U999''" "evUser ?e2 = ''U999''" by (simp_all add: humanEvent_def)
  have v1: "demoParser (evUser ?e1) (trimBot keelBot (normalizeText (evText ?e1))) = (?a, True)"
    and v2: "demoParser (evUser ?e2) (trimBot keelBot (normalizeText (evText ?e2))) = (?a, True)"
    unfolding n1 n2 t u by (rule p)+
  show ?thesis
    using vote_routing [of ?e1 keelBot demoParser ?a demoAPI emptyWorld, OF _ _ _ a1 v1]
      vote_routing [of ?e2 keelBot demoParser ?a demoAPI emptyWorld, OF _ _ _ a2 v2]
      c1 c2
    by (simp add: humanEvent_def emptyWorld_def keelBot_def)
qed

text \<open>
  C2: for an event that passes both filters and whose stripped text the parser does not
  take for a vote, exactly one \<open>BotMessage\<close> with the stripped text, the sender, the channel
  and the source name \<open>slack\<close> is enqueued; the approvals queue and the replies stay as
  they are.
\<close>

theorem command_routing:
  assumes "evBotID event = []" and "evUser event \<noteq> []" and "evSubType event \<noteq> ''bot_message''"
    and "isBotMessage b event (normalizeText (evText event))"
    and "snd (IsApproval (evUser event) (trimBot b (normalizeText (evText event)))) = False"
  shows "handleMessage b api IsApproval event w
           = w\<lparr>botMessagesChannel := botMessagesChannel w @
                 [\<lparr>bmMessage = trimBot b (normalizeText (evText event)), bmUser = evUser event,
                   bmChannel = evChannel event, bmName = ''slack''\<rparr>]\<rparr>
         \<and> approvalsRespCh (handleMessage b api IsApproval event w) = approvalsRespCh w
         \<and> sent (handleMessage b api IsApproval event w) = sent w"
  using assms
  by (cases "IsApproval (evUser event) (trimBot b (normalizeText (evText event)))")
     (simp add: handleMessage_def Let_def)

text \<open>
  The spec's third scenario: \<open>keel status\<close> in a direct-message channel.
\<close>

theorem command_routing_witness:
  "handleMessage keelBot demoAPI demoParser (humanEvent ''keel status'' ''D7'') emptyWorld
     = emptyWorld\<lparr>botMessagesChannel :=
         [\<lparr>bmMessage = ''status'', bmUser = ''U999'', bmChannel = ''D7'', bmName = ''slack''\<rparr>]\<rparr>"
proof -
  let ?e = "humanEvent ''keel status'' ''D7''"
  have n: "normalizeText (evText ?e) = ''keel status''" by (simp add: evals)
  have t: "trimBot keelBot ''keel status'' = ''status''" by (simp add: evals)
  have a: "isBotMessage keelBot ?e (normalizeText (evText ?e))"
    unfolding n by (simp add: evals)
  have v: "snd (demoParser (evUser ?e) (trimBot keelBot (normalizeText (evText ?e)))) = False"
    unfolding n t by (simp add: evals)
  show ?thesis
    using command_routing [of ?e keelBot demoParser demoAPI emptyWorld, OF _ _ _ a v] n t
    by (simp add: humanEvent_def emptyWorld_def)
qed

section \<open>A bot name with an upper-case letter\<close>








section \<open>Identity resolution\<close>

lemma scanUsers_name: "name (scanUsers b us) = name b"
  by (induction us arbitrary: b) simp_all

lemma scanUsers_fields:
  "users (scanUsers b us) = users b"  "approvalsChannel (scanUsers b us) = approvalsChannel b"
  by (induction us arbitrary: b) simp_all

lemma scanUsers_id:
  "id_b (scanUsers b us) =
     (if filter (\<lambda>u. userName u = name b \<and> userIsBot u) us = [] then id_b b
      else userID (last (filter (\<lambda>u. userName u = name b \<and> userIsBot u) us)))"
  by (induction us arbitrary: b) simp_all

text \<open>
  C6, as the code has it: \<open>Start\<close> scans the whole directory for users with the
  configured name (compared case-sensitively) that are flagged as bots, and the last of
  them in iteration order gives the bot its id, from which the mention prefix is built,
  provided that id is not empty; when no user matches and the bot has no id yet,
  \<open>Start\<close> returns an error and the event loop is not started.
\<close>

theorem Start_last_match:
  assumes "GetUsers api = Inr directory"
  shows "(filter (\<lambda>u. userName u = name b \<and> userIsBot u) directory \<noteq> []
          \<and> userID (last (filter (\<lambda>u. userName u = name b \<and> userIsBot u) directory)) \<noteq> [] \<longrightarrow>
            (\<exists>b'. Start b api = Inr b'
               \<and> id_b b' = userID (last (filter (\<lambda>u. userName u = name b \<and> userIsBot u) directory))
               \<and> msgPrefix b' = ToLower (''<@'' @ id_b b' @ ''>'')
               \<and> name b' = name b))
         \<and> (filter (\<lambda>u. userName u = name b \<and> userIsBot u) directory = [] \<and> id_b b = [] \<longrightarrow>
            (\<exists>err. Start b api = Inl err))"
  using assms by (simp add: Start_def Let_def scanUsers_id scanUsers_name)

text \<open>
  A directory with two bot accounts called \<open>keel\<close>, and one with none.
\<close>

theorem Start_last_match_witness:
  "Start freshBot (demoAPI\<lparr>GetUsers := Inr twoKeels\<rparr>)
     = Inr (freshBot\<lparr>id_b := ''U2'', msgPrefix := ''<@u2>''\<rparr>)
   \<and> (\<exists>err. Start freshBot
         (demoAPI\<lparr>GetUsers := Inr [\<lparr>userID = ''U7'', userName = ''Keel'', userIsBot = True\<rparr>,
                                  \<lparr>userID = ''U3'', userName = ''keel'', userIsBot = False\<rparr>]\<rparr>) = Inl err)"
  using Start_last_match [of "demoAPI\<lparr>GetUsers := Inr twoKeels\<rparr>" twoKeels freshBot]
    Start_last_match [of "demoAPI\<lparr>GetUsers := Inr [\<lparr>userID = ''U7'', userName = ''Keel'', userIsBot = True\<rparr>,
                                  \<lparr>userID = ''U3'', userName = ''keel'', userIsBot = False\<rparr>]\<rparr>" _ freshBot]
  by (simp add: twoKeels_def freshBot_def Start_def evals)

text \<open>
  The claim C6 as stated fails here: the first bot account called \<open>keel\<close> is \<open>U1\<close>, and
  \<open>Start\<close> picks \<open>U2\<close>.
\<close>

theorem first_match_counterexample:
  "firstBotAccount_spec (name freshBot) twoKeels = Some ''U1''
   \<and> Start freshBot (demoAPI\<lparr>GetUsers := Inr twoKeels\<rparr>)
       = Inr (freshBot\<lparr>id_b := ''U2'', msgPrefix := ''<@u2>''\<rparr>)"
  by (simp add: firstBotAccount_spec_def twoKeels_def freshBot_def Start_def evals)

section \<open>Stripping the addressing\<close>

lemma HasPrefix_iff: "HasPrefix s p \<longleftrightarrow> (\<exists>post. s = p @ post)"
  unfolding HasPrefix_def
  by (metis append_eq_conv_conj append_take_drop_id length_append le_add1)

lemma ReplaceFirst_absent:
  "\<forall>pre post. s \<noteq> pre @ old @ post \<Longrightarrow> ReplaceFirst s old new = s"
proof (induction s)
  case Nil
  then have "old \<noteq> []" by auto
  then show ?case by simp
next
  case (Cons c cs)
  have np: "\<not> HasPrefix (c # cs) old"
    using Cons.prems unfolding HasPrefix_iff by (metis append_Nil)
  have "\<forall>pre post. cs \<noteq> pre @ old @ post"
    using Cons.prems by (metis append_Cons)
  with Cons.IH np show ?case by simp
qed

lemma ReplaceFirst_leftmost:
  "s = pre @ old @ post \<Longrightarrow>
   \<forall>pre' post'. s = pre' @ old @ post' \<longrightarrow> length pre \<le> length pre' \<Longrightarrow>
   ReplaceFirst s old new = pre @ new @ post"
proof (induction s arbitrary: pre)
  case Nil
  then show ?case by simp
next
  case (Cons c cs)
  show ?case
  proof (cases "HasPrefix (c # cs) old")
    case True
    then obtain post0 where "c # cs = [] @ old @ post0"
      unfolding HasPrefix_iff by auto
    with Cons.prems(2) have e: "pre = []" by (metis le_zero_eq length_0_conv list.size(3))
    have "ReplaceFirst (c # cs) old new = new @ drop (length old) (c # cs)"
      using True by simp
    also have "drop (length old) (c # cs) = post"
      by (simp add: Cons.prems(1) e)
    finally show ?thesis using e by simp
  next
    case False
    then have "pre \<noteq> []"
      using Cons.prems(1) unfolding HasPrefix_iff by auto
    then obtain pre1 where pre: "pre = c # pre1" and cs: "cs = pre1 @ old @ post"
      using Cons.prems(1) by (cases pre) auto
    have "\<forall>pre' post'. cs = pre' @ old @ post' \<longrightarrow> length pre1 \<le> length pre'"
    proof (intro allI impI)
      fix pre' post' assume "cs = pre' @ old @ post'"
      then have "c # cs = (c # pre') @ old @ post'" by simp
      with Cons.prems(2) have "length pre \<le> length (c # pre')" by blast
      with pre show "length pre1 \<le> length pre'" by simp
    qed
    with Cons.IH [OF cs] have "ReplaceFirst cs old new = pre1 @ new @ post" by blast
    with False pre show ?thesis by simp
  qed
qed

lemma Index_leftmost:
  "Index s old = Some k \<Longrightarrow> s = pre' @ old @ post' \<Longrightarrow> k \<le> length pre'"
proof (induction s arbitrary: k pre')
  case Nil
  then show ?case by (simp split: if_splits)
next
  case (Cons c cs)
  show ?case
  proof (cases "HasPrefix (c # cs) old")
    case True
    with Cons.prems(1) show ?thesis by simp
  next
    case False
    then have "pre' \<noteq> []"
      using Cons.prems(2) unfolding HasPrefix_iff by auto
    then obtain p1 where p1: "pre' = c # p1" "cs = p1 @ old @ post'"
      using Cons.prems(2) by (cases pre') auto
    from False Cons.prems(1) obtain j where j: "Index cs old = Some j" "k = Suc j"
      by auto
    from Cons.IH [OF j(1) p1(2)] j(2) p1(1) show ?thesis by simp
  qed
qed

lemma Index_first_occurrence:
  "Index s old = Some (length pre) \<Longrightarrow>
   \<forall>pre' post'. s = pre' @ old @ post' \<longrightarrow> length pre \<le> length pre'"
  using Index_leftmost by blast

text \<open>
  C5, as the code has it: \<open>trimBot\<close> removes the leftmost occurrence of the lower-cased
  mention prefix wherever it stands in the text, then removes the plain name from the start
  of what is left if that starts with it, then trims spaces, colons and newlines from both
  ends.  A text without the mention prefix only loses a leading plain name.
\<close>

theorem trimBot_leftmost_mention:
  "((\<forall>pre post. msg \<noteq> pre @ ToLower (msgPrefix b) @ post) \<longrightarrow>
      trimBot b msg = Trim (TrimPrefix msg (name b)) [CHR '' '', CHR '':'', CHR 0x0A])
   \<and> (msg = pre @ ToLower (msgPrefix b) @ post
       \<and> (\<forall>pre' post'. msg = pre' @ ToLower (msgPrefix b) @ post' \<longrightarrow> length pre \<le> length pre') \<longrightarrow>
      trimBot b msg = Trim (TrimPrefix (pre @ post) (name b)) [CHR '' '', CHR '':'', CHR 0x0A])"
  using ReplaceFirst_absent [of msg "ToLower (msgPrefix b)" "[]"]
    ReplaceFirst_leftmost [of msg pre "ToLower (msgPrefix b)" post "[]"]
  by (simp add: trimBot_def Let_def)

text \<open>
  No mention; a mention at the start; a mention at the start followed by the name; a
  mention in the interior.
\<close>

theorem trimBot_leftmost_mention_witness:
  "trimBot keelBot ''keel: status'' = ''status''
   \<and> trimBot keelBot ''<@u123> keel status'' = ''keel status''
   \<and> trimBot keelBot ''<@u123>keel status'' = ''status''
   \<and> trimBot keelBot ''status <@u123> now'' = ''status  now''"
proof -
  have P: "ToLower (msgPrefix keelBot) = ''<@u123>''" by (simp add: evals)
  have a: "\<forall>pre post. ''keel: status'' \<noteq> pre @ ToLower (msgPrefix keelBot) @ post"
  proof (intro allI notI)
    fix pre post assume "''keel: status'' = pre @ ToLower (msgPrefix keelBot) @ post"
    then have "CHR ''<'' \<in> set ''keel: status''" unfolding P
      by (metis in_set_conv_decomp append_Cons)
    then show False by simp
  qed
  have m: "\<forall>pre' post'. ''status <@u123> now'' = pre' @ ToLower (msgPrefix keelBot) @ post'
             \<longrightarrow> length ''status '' \<le> length pre'"
    by (rule Index_first_occurrence) (simp add: P HasPrefix_def)
  show ?thesis
    using trimBot_leftmost_mention [of "''keel: status''" keelBot] a
      trimBot_leftmost_mention [of "''<@u123> keel status''" keelBot "[]" "'' keel status''"]
      trimBot_leftmost_mention [of "''<@u123>keel status''" keelBot "[]" "''keel status''"]
      trimBot_leftmost_mention [of "''status <@u123> now''" keelBot "''status ''" "'' now''"] m
    unfolding P
    by (simp add: keelBot_def TrimPrefix_def HasPrefix_def Trim_def TrimLeft_def TrimRight_def)
qed

text \<open>
  The claim C5 as stated fails here: an interior mention is removed, and a name that follows
  the mention is removed together with it.
\<close>

theorem trimBot_spec_counterexample:
  "trimBot keelBot ''status <@u123> now'' = ''status  now''
   \<and> trimBot_spec keelBot ''status <@u123> now'' = ''status <@u123> now''
   \<and> trimBot keelBot ''<@u123>keel status'' = ''status''
   \<and> trimBot_spec keelBot ''<@u123>keel status'' = ''keel status''"
  by (simp add: trimBot_spec_def evals)

text \<open>
  C8, as the code has it: of two occurrences of the mention prefix only the leftmost is
  removed; what is left then loses a leading plain name, if it starts with one, and is
  trimmed.  When it does not start with the plain name, the result is the text without its
  first mention, trimmed.
\<close>

theorem trimBot_second_mention_kept:
  assumes "msg = pre @ ToLower (msgPrefix b) @ mid @ ToLower (msgPrefix b) @ post"
    and "\<forall>pre' post'. msg = pre' @ ToLower (msgPrefix b) @ post' \<longrightarrow> length pre \<le> length pre'"
  shows "trimBot b msg
           = Trim (TrimPrefix (pre @ mid @ ToLower (msgPrefix b) @ post) (name b))
               [CHR '' '', CHR '':'', CHR 0x0A]
         \<and> (name b = [] \<or> \<not> HasPrefix (pre @ mid @ ToLower (msgPrefix b) @ post) (name b) \<longrightarrow>
              trimBot b msg
                = Trim (pre @ mid @ ToLower (msgPrefix b) @ post) [CHR '' '', CHR '':'', CHR 0x0A])"
  using assms
    ReplaceFirst_leftmost [of msg pre "ToLower (msgPrefix b)" "mid @ ToLower (msgPrefix b) @ post" "[]"]
  by (auto simp add: trimBot_def Let_def TrimPrefix_def)

text \<open>
  Two mentions at the start, and two mentions in the interior.
\<close>

theorem trimBot_second_mention_kept_witness:
  "trimBot keelBot ''<@u123> <@u123> status'' = ''<@u123> status''
   \<and> trimBot keelBot ''hey <@u123>, ask <@u123>:'' = ''hey , ask <@u123>''"
proof -
  have P: "ToLower (msgPrefix keelBot) = ''<@u123>''" by (simp add: evals)
  have m: "\<forall>pre' post'. ''hey <@u123>, ask <@u123>:'' = pre' @ ToLower (msgPrefix keelBot) @ post'
             \<longrightarrow> length ''hey '' \<le> length pre'"
    by (rule Index_first_occurrence) (simp add: P HasPrefix_def)
  show ?thesis
    using trimBot_second_mention_kept [of "''<@u123> <@u123> status''" "[]" keelBot "'' ''" "'' status''"]
      trimBot_second_mention_kept [of "''hey <@u123>, ask <@u123>:''" "''hey ''" keelBot "'', ask ''" "'':''"] m
    unfolding P
    by (simp add: keelBot_def TrimPrefix_def HasPrefix_def Trim_def TrimLeft_def TrimRight_def)
qed

text \<open>
  The claim C8 as stated fails here: the result is neither the text without its first
  mention nor the text without its second mention, trimmed; the name after the first mention
  is gone as well.
\<close>

theorem one_removal_counterexample:
  "trimBot keelBot (''<@u123>'' @ ''keel: '' @ ''<@u123>'' @ '' help'') = ''<@u123> help''
   \<and> Trim (''keel: '' @ ''<@u123>'' @ '' help'') [CHR '' '', CHR '':'', CHR 0x0A]
       = ''keel: <@u123> help''
   \<and> Trim (''<@u123>'' @ ''keel: '' @ '' help'') [CHR '' '', CHR '':'', CHR 0x0A]
       = ''<@u123>keel:  help''"
  by (simp add: evals)

end
